theory Spec2Isabelle
  imports Main "HOL-Library.Word" "HOL-Library.Signed_Division"
begin

unbundle bit_operations_syntax

section \<open>The LoRaWAN bin sensor sketch (src/main.cpp)\<close>

text \<open>
  The sketch runs on an 8-bit AVR microcontroller (it programs \<^verbatim>\<open>ADMUX\<close> and
  \<^verbatim>\<open>ADCSRA\<close> and sleeps through the LowPower library), compiled with avr-gcc:
  \<^verbatim>\<open>int\<close> and \<^verbatim>\<open>unsigned\<close> are 16 bits wide, \<^verbatim>\<open>long\<close> is 32 bits wide,
  signed values are two's complement, \<^verbatim>\<open>>>\<close> on a signed value is an arithmetic
  shift and \<^verbatim>\<open>/\<close> truncates towards zero. A signed value is a word read with
  \<open>sint\<close>.
\<close>

type_synonym u1_t = "8 word"
type_synonym u2_t = "16 word"
type_synonym int_t = "16 word"
type_synonym unsigned_t = "16 word"
type_synonym long_t = "32 word"
type_synonym ostime_t = "32 word"

subsection \<open>Calls into the collaborators\<close>

text \<open>
  Every call the sketch makes into the serial console, the ADC registers, the LMIC
  stack and the LowPower library is recorded, in program order, as one \<open>effect\<close>.
  A function of the sketch returns the effects it produced beside the new values of
  the sketch's global variables.
\<close>

datatype printable = F string | Ticks ostime_t | Num16 int_t | Num8 u1_t

datatype period_t = SLEEP_8S
datatype adc_t = ADC_OFF
datatype bod_t = BOD_OFF
datatype osjob_t = Sendjob
datatype osjobcb_t = Do_send

datatype effect =
    Serial_print printable
  | Serial_println printable
  | Serial_flush
  | Write_ADMUX
  | Delay nat
  | Start_conversion
  | LMIC_setTxData2 u1_t "u1_t list" u1_t u1_t
  | LMIC_setLinkCheckMode u1_t
  | LowPower_powerDown period_t adc_t bod_t
  | Os_setTimedCallback osjob_t ostime_t osjobcb_t

fun is_log :: "effect \<Rightarrow> bool" where
  "is_log (Serial_print _) = True"
| "is_log (Serial_println _) = True"
| "is_log Serial_flush = True"
| "is_log _ = False"

fun is_sleep :: "effect \<Rightarrow> bool" where
  "is_sleep (LowPower_powerDown _ _ _) = True"
| "is_sleep _ = False"

fun is_schedule :: "effect \<Rightarrow> bool" where
  "is_schedule (Os_setTimedCallback _ _ _) = True"
| "is_schedule _ = False"

fun is_enqueue :: "effect \<Rightarrow> bool" where
  "is_enqueue (LMIC_setTxData2 _ _ _ _) = True"
| "is_enqueue _ = False"

fun is_link_check :: "effect \<Rightarrow> bool" where
  "is_link_check (LMIC_setLinkCheckMode _) = True"
| "is_link_check _ = False"

fun is_sampler :: "effect \<Rightarrow> bool" where
  "is_sampler Write_ADMUX = True"
| "is_sampler (Delay _) = True"
| "is_sampler Start_conversion = True"
| "is_sampler _ = False"

subsection \<open>Global variables, the environment, the library header\<close>

text \<open>
  The globals of the sketch: \<^verbatim>\<open>static uint8_t payload[20]\<close>, \<^verbatim>\<open>int times, rest\<close>.
  (\<^verbatim>\<open>sendjob\<close> is an opaque handle that the sketch only passes on.)
\<close>

record sketch =
  payload :: "u1_t list"
  times_g :: int_t
  rest :: int_t

text \<open>The fields of the stack's \<^verbatim>\<open>LMIC\<close> structure that the sketch reads.\<close>

record lmic_t =
  opmode :: u2_t
  txrxFlags :: u1_t
  dataLen :: u1_t

text \<open>
  What the sketch reads from outside during one call: the \<^verbatim>\<open>LMIC\<close> structure,
  the value of the \<open>k\<close>-th call of \<^verbatim>\<open>os_getTime()\<close> in the call, whether the
  \<open>k\<close>-th poll of \<^verbatim>\<open>ADCSRA\<close> finds the bit \<^verbatim>\<open>ADSC\<close> still set, and the two ADC
  data registers after the conversion.
\<close>

record env =
  LMIC :: lmic_t
  os_getTime :: "nat \<Rightarrow> ostime_t"
  ADSC_set :: "nat \<Rightarrow> bool"
  ADCL :: u1_t
  ADCH :: u1_t

text \<open>
  The constants and the macro of the LMIC header that the sketch uses; the header
  is not part of the repository, so they are parameters.
\<close>

record lmic_h =
  OP_TXRXPEND :: u2_t
  TXRX_ACK :: u1_t
  sec2osticks :: "int_t \<Rightarrow> ostime_t"

text \<open>\<^verbatim>\<open>const unsigned TX_INTERVAL = 20;\<close>\<close>

definition TX_INTERVAL :: unsigned_t where
  "TX_INTERVAL = 20"

subsection \<open>readVcc\<close>

text \<open>
  \<^verbatim>\<open>while (bit_is_set(ADCSRA, ADSC));\<close> polls until the hardware clears the bit;
  \<open>None\<close> is the loop that never ends.
\<close>

partial_function (option) measuring :: "(nat \<Rightarrow> bool) \<Rightarrow> nat \<Rightarrow> nat option" where
  "measuring adsc k = (if adsc k then measuring adsc (Suc k) else Some k)"

declare measuring.simps [code]

text \<open>
  \<^verbatim>\<open>long result = (high << 8) | low;\<close> the two bytes are promoted to \<^verbatim>\<open>int\<close>, the
  shift and the or are done on 16 bits, and the \<^verbatim>\<open>int\<close> is sign-extended to
  \<^verbatim>\<open>long\<close>.
\<close>

definition adc_result :: "env \<Rightarrow> long_t" where
  "adc_result E =
     (let low = ADCL E;
          high = ADCH E
      in scast (push_bit 8 (ucast high :: int_t) OR (ucast low :: int_t)))"

datatype error = Division_by_zero

text \<open>
  \<^verbatim>\<open>result = 1125300L / result;\<close> is a signed 32-bit division with no test of the
  divisor before it; dividing by zero is undefined behaviour, the value
  \<open>Inl Division_by_zero\<close>.
\<close>

definition readVcc :: "env \<Rightarrow> (error + long_t \<times> effect list) option" where
  "readVcc E =
     (case measuring (ADSC_set E) 0 of
        None \<Rightarrow> None
      | Some _ \<Rightarrow>
          (let result = adc_result E
           in if result = 0 then Some (Inl Division_by_zero)
              else Some (Inr (word_of_int (1125300 sdiv sint result),
                              [Write_ADMUX, Delay 2, Start_conversion]))))"

subsection \<open>do\_send\<close>

text \<open>
  Lines 86 to 93: the cursor \<^verbatim>\<open>uint32_t i = 0\<close> and the two stores
  \<^verbatim>\<open>payload[i++] = (batteryLevel_mV >> 8) & 0xFF; payload[i++] = batteryLevel_mV & 0xFF;\<close>.
  The result is the buffer and the cursor.
\<close>

definition build_payload :: "long_t \<Rightarrow> u1_t list \<Rightarrow> u1_t list \<times> 32 word" where
  "build_payload batteryLevel_mV p0 =
     (let i = (0 :: 32 word);
          p1 = p0[unat i := ucast (signed_drop_bit 8 batteryLevel_mV AND 0xFF)];
          i = i + 1;
          p2 = p1[unat i := ucast (batteryLevel_mV AND 0xFF)];
          i = i + 1
      in (p2, i))"

definition do_send :: "lmic_h \<Rightarrow> env \<Rightarrow> sketch \<Rightarrow> (error + sketch \<times> effect list) option" where
  "do_send H E s =
     (if opmode (LMIC E) AND OP_TXRXPEND H \<noteq> 0
      then Some (Inr (s, [Serial_println (F ''OP_TXRXPEND, not sending'')]))
      else
        (case readVcc E of
           None \<Rightarrow> None
         | Some (Inl e) \<Rightarrow> Some (Inl e)
         | Some (Inr (batteryLevel_mV, fx)) \<Rightarrow>
             (case build_payload batteryLevel_mV (payload s) of
                (p, i) \<Rightarrow>
                  Some (Inr (s\<lparr>payload := p\<rparr>,
                             fx @ [LMIC_setTxData2 1 p (ucast i) 0,
                                   Serial_println (F ''Packet queued'')])))))"

subsection \<open>onEvent\<close>

text \<open>
  The event tags of the stack that the sketch names, and \<open>EV_other\<close> for every
  other tag value (the \<^verbatim>\<open>default\<close> branch of the switch).
\<close>

datatype ev_t =
    EV_SCAN_TIMEOUT
  | EV_BEACON_FOUND
  | EV_BEACON_MISSED
  | EV_BEACON_TRACKED
  | EV_JOINING
  | EV_JOINED
  | EV_RFU1
  | EV_JOIN_FAILED
  | EV_REJOIN_FAILED
  | EV_TXCOMPLETE
  | EV_LOST_TSYNC
  | EV_RESET
  | EV_RXCOMPLETE
  | EV_LINK_DEAD
  | EV_LINK_ALIVE
  | EV_other nat

text \<open>
  \<^verbatim>\<open>for (int i = 0; i < times; i++) LowPower.powerDown(SLEEP_8S, ADC_OFF, BOD_OFF);\<close>
  with the signed comparison of the two \<^verbatim>\<open>int\<close>s.
\<close>

function powerDown_loop :: "int_t \<Rightarrow> int_t \<Rightarrow> effect list \<Rightarrow> effect list" where
  "powerDown_loop i n fx =
     (if i <s n
      then powerDown_loop (i + 1) n (fx @ [LowPower_powerDown SLEEP_8S ADC_OFF BOD_OFF])
      else fx)"
  by pat_completeness auto
termination
proof (relation "measure (\<lambda>(i, n, fx). nat (sint n - sint i))")
  show "wf (measure (\<lambda>(i :: int_t, n :: int_t, fx :: effect list). nat (sint n - sint i)))"
    by simp
next
  fix i n :: int_t and fx :: "effect list"
  assume less: "i <s n"
  have "sint n < 2 ^ 15"
    using sint_lt [of n] by simp
  moreover have "- (2 ^ 15) \<le> sint i"
    using sint_ge [of i] by simp
  moreover have "sint i < sint n"
    using less by (simp add: word_sless_alt)
  ultimately have "sint (i + 1) = sint i + 1"
    by (simp add: sint_word_ariths signed_take_bit_int_eq_self)
  with \<open>sint i < sint n\<close>
  show "((i + 1, n, fx @ [LowPower_powerDown SLEEP_8S ADC_OFF BOD_OFF]), (i, n, fx))
          \<in> measure (\<lambda>(i, n, fx). nat (sint n - sint i))"
    by simp
qed

declare powerDown_loop.simps [simp del]

text \<open>
  Lines 157 to 173 of the \<^verbatim>\<open>EV_TXCOMPLETE\<close> branch, for a transmission interval
  \<open>tx_interval\<close>: \<^verbatim>\<open>times = TX_INTERVAL / 8; rest = TX_INTERVAL % 8;\<close> (unsigned
  division, the results stored in \<^verbatim>\<open>int\<close>s), the log line, the sleep loop, and
  \<^verbatim>\<open>os_setTimedCallback(&sendjob, os_getTime() + sec2osticks(rest), do_send)\<close>.
  This \<^verbatim>\<open>os_getTime()\<close> is the second one of the call of \<^verbatim>\<open>onEvent\<close>.
\<close>

definition enter_sleep :: "unsigned_t \<Rightarrow> lmic_h \<Rightarrow> env \<Rightarrow> sketch \<Rightarrow> sketch \<times> effect list" where
  "enter_sleep tx_interval H E s =
     (let s1 = s\<lparr>times_g := tx_interval div 8\<rparr>;
          s2 = s1\<lparr>rest := tx_interval mod 8\<rparr>;
          fx = [Serial_print (F ''Sleeping ''),
                Serial_print (Num16 (times_g s2)),
                Serial_print (F '' of 8 seconds. Rest: ''),
                Serial_println (Num16 (rest s2)),
                Serial_flush];
          fx = powerDown_loop 0 (times_g s2) fx
      in (s2, fx @ [Os_setTimedCallback Sendjob
                      (os_getTime E 1 + sec2osticks H (rest s2)) Do_send]))"

definition txcomplete_log :: "lmic_h \<Rightarrow> env \<Rightarrow> effect list" where
  "txcomplete_log H E =
     [Serial_println (F ''EV_TXCOMPLETE (includes waiting for RX windows)'')]
     @ (if txrxFlags (LMIC E) AND TXRX_ACK H \<noteq> 0
        then [Serial_println (F ''Received ack'')] else [])
     @ (if dataLen (LMIC E) \<noteq> 0
        then [Serial_println (F ''Received ''),
              Serial_println (Num8 (dataLen (LMIC E))),
              Serial_println (F '' bytes of payload'')]
        else [])"

text \<open>
  \<open>onEvent_at\<close> is \<^verbatim>\<open>onEvent\<close> for any value of the constant \<^verbatim>\<open>TX_INTERVAL\<close>;
  \<open>onEvent\<close> is the sketch's, with the interval 20.
\<close>

definition onEvent_at :: "unsigned_t \<Rightarrow> lmic_h \<Rightarrow> env \<Rightarrow> ev_t \<Rightarrow> sketch \<Rightarrow> sketch \<times> effect list" where
  "onEvent_at tx_interval H E ev s =
     (let hd_fx = [Serial_print (Ticks (os_getTime E 0)), Serial_print (F '': '')]
      in case ev of
           EV_SCAN_TIMEOUT \<Rightarrow> (s, hd_fx @ [Serial_println (F ''EV_SCAN_TIMEOUT'')])
         | EV_BEACON_FOUND \<Rightarrow> (s, hd_fx @ [Serial_println (F ''EV_BEACON_FOUND'')])
         | EV_BEACON_MISSED \<Rightarrow> (s, hd_fx @ [Serial_println (F ''EV_BEACON_MISSED'')])
         | EV_BEACON_TRACKED \<Rightarrow> (s, hd_fx @ [Serial_println (F ''EV_BEACON_TRACKED'')])
         | EV_JOINING \<Rightarrow> (s, hd_fx @ [Serial_println (F ''EV_JOINING'')])
         | EV_JOINED \<Rightarrow>
             (s, hd_fx @ [Serial_println (F ''EV_JOINED''), LMIC_setLinkCheckMode 0])
         | EV_RFU1 \<Rightarrow> (s, hd_fx @ [Serial_println (F ''EV_RFU1'')])
         | EV_JOIN_FAILED \<Rightarrow> (s, hd_fx @ [Serial_println (F ''EV_JOIN_FAILED'')])
         | EV_REJOIN_FAILED \<Rightarrow> (s, hd_fx @ [Serial_println (F ''EV_REJOIN_FAILED'')])
         | EV_TXCOMPLETE \<Rightarrow>
             (case enter_sleep tx_interval H E s of
                (s', fx) \<Rightarrow> (s', hd_fx @ txcomplete_log H E @ fx))
         | EV_LOST_TSYNC \<Rightarrow> (s, hd_fx @ [Serial_println (F ''EV_LOST_TSYNC'')])
         | EV_RESET \<Rightarrow> (s, hd_fx @ [Serial_println (F ''EV_RESET'')])
         | EV_RXCOMPLETE \<Rightarrow> (s, hd_fx @ [Serial_println (F ''EV_RXCOMPLETE'')])
         | EV_LINK_DEAD \<Rightarrow> (s, hd_fx @ [Serial_println (F ''EV_LINK_DEAD'')])
         | EV_LINK_ALIVE \<Rightarrow> (s, hd_fx @ [Serial_println (F ''EV_LINK_ALIVE'')])
         | EV_other _ \<Rightarrow> (s, hd_fx @ [Serial_println (F ''Unknown event'')]))"

definition onEvent :: "lmic_h \<Rightarrow> env \<Rightarrow> ev_t \<Rightarrow> sketch \<Rightarrow> sketch \<times> effect list" where
  "onEvent = onEvent_at TX_INTERVAL"

subsection \<open>Observations on the effects\<close>

text \<open>The seconds that a power-down period lasts, and the blocking sleeps of a run.\<close>

fun seconds_of :: "period_t \<Rightarrow> nat" where
  "seconds_of SLEEP_8S = 8"

fun slept :: "effect list \<Rightarrow> nat list" where
  "slept [] = []"
| "slept (LowPower_powerDown p a b # fx) = seconds_of p # slept fx"
| "slept (e # fx) = slept fx"

text \<open>
  The Duty-Cycle Scheduler in the words of the specification, to be compared with
  \<open>enter_sleep\<close>: \<open>interval div chunk\<close> blocking sleeps of one chunk each, then
  one blocking sleep of \<open>interval mod chunk\<close> seconds, a sleep of length zero
  being no sleep.
\<close>

definition spec_sleeps :: "nat \<Rightarrow> nat \<Rightarrow> nat list" where
  "spec_sleeps interval chunk =
     replicate (interval div chunk) chunk
     @ (if interval mod chunk = 0 then [] else [interval mod chunk])"

text \<open>
  The value that a receiver reads from the two payload bytes, the first byte being
  the most significant.
\<close>

definition transmitted :: "u1_t list \<Rightarrow> int" where
  "transmitted p = 256 * uint (p ! 0) + uint (p ! 1)"

subsection \<open>Sample inputs\<close>

text \<open>
  A header with the values of the LMIC library (\<^verbatim>\<open>OP_TXRXPEND = 0x0080\<close>,
  \<^verbatim>\<open>TXRX_ACK = 0x80\<close>, 32768 ticks per second), an environment with an idle MAC
  layer whose ADC reads 304 after three busy polls, and the sketch's globals at start.
\<close>

definition sample_header :: lmic_h where
  "sample_header =
     \<lparr>OP_TXRXPEND = 0x80, TXRX_ACK = 0x80, sec2osticks = (\<lambda>sec. scast sec * 32768)\<rparr>"

definition sample_env :: env where
  "sample_env =
     \<lparr>LMIC = \<lparr>opmode = 0, txrxFlags = 0, dataLen = 0\<rparr>,
      os_getTime = (\<lambda>k. 1000 + of_nat k),
      ADSC_set = (\<lambda>k. k < 3),
      ADCL = 0x30,
      ADCH = 1\<rparr>"

definition idle_sketch :: sketch where
  "idle_sketch = \<lparr>payload = replicate 20 0, times_g = 0, rest = 0\<rparr>"

text \<open>
  The same environment with a transmission pending in the MAC layer, with an ADC
  that reads 0, and with an ADC that reads 1.
\<close>

definition pending_env :: env where
  "pending_env = sample_env\<lparr>LMIC := \<lparr>opmode = 0x0880, txrxFlags = 0, dataLen = 0\<rparr>\<rparr>"

definition zero_adc_env :: env where
  "zero_adc_env = sample_env\<lparr>ADCL := 0, ADCH := 0\<rparr>"

definition one_adc_env :: env where
  "one_adc_env = sample_env\<lparr>ADCL := 1, ADCH := 0\<rparr>"

text \<open>
  The same environment with an ADC that reads 1023 (registers \<open>0x03\<close>, \<open>0xFF\<close>),
  and with both registers at \<open>0xFF\<close>, which the 16-bit \<^verbatim>\<open>int\<close> reads as \<open>-1\<close>.
\<close>

definition full_scale_env :: env where
  "full_scale_env = sample_env\<lparr>ADCL := 0xFF, ADCH := 3\<rparr>"

definition all_ones_env :: env where
  "all_ones_env = sample_env\<lparr>ADCL := 0xFF, ADCH := 0xFF\<rparr>"

section \<open>The sleep loop and the decomposition of the interval\<close>

lemma sint_succ_less:
  fixes i :: int_t
  assumes "i <s n"
  shows "sint (i + 1) = sint i + 1"
proof -
  have "sint n < 2 ^ 15"
    using sint_lt [of n] by simp
  moreover have "- (2 ^ 15) \<le> sint i"
    using sint_ge [of i] by simp
  moreover have "sint i < sint n"
    using assms by (simp add: word_sless_alt)
  ultimately show ?thesis
    by (simp add: sint_word_ariths signed_take_bit_int_eq_self)
qed

lemma powerDown_loop_replicate:
  "powerDown_loop i n fx =
     fx @ replicate (nat (sint n - sint i)) (LowPower_powerDown SLEEP_8S ADC_OFF BOD_OFF)"
proof (induction i n fx rule: powerDown_loop.induct)
  case (1 i n fx)
  show ?case
  proof (cases "i <s n")
    case True
    then have lt: "sint i < sint n" by (simp add: word_sless_alt)
    have "nat (sint n - sint i) = Suc (nat (sint n - sint (i + 1)))"
      using lt sint_succ_less [OF True] by simp
    with True "1.IH" show ?thesis
      by (subst powerDown_loop.simps) (simp add: replicate_append_same)
  next
    case False
    then have "sint n \<le> sint i" by (simp add: word_sless_alt)
    with False show ?thesis
      by (subst powerDown_loop.simps) simp
  qed
qed

lemma sint_div8:
  fixes I :: unsigned_t
  shows "sint (I div 8) = uint I div 8"
proof -
  have "uint I < 2 ^ 16" using uint_lt2p [of I] by simp
  then have "uint I div 8 < 2 ^ 15" by simp
  moreover have "0 \<le> uint I div 8" by (simp add: pos_imp_zdiv_nonneg_iff)
  moreover have "uint (I div 8) = uint I div 8" by (simp add: uint_div)
  ultimately show ?thesis
    by (simp add: sint_uint signed_take_bit_int_eq_self)
qed

lemma sint_mod8:
  fixes I :: unsigned_t
  shows "sint (I mod 8) = uint I mod 8"
proof -
  have "uint I mod 8 < 8" by simp
  then have "uint I mod 8 < 2 ^ 15" by simp
  moreover have "0 \<le> uint I mod 8" by simp
  moreover have "uint (I mod 8) = uint I mod 8" by (simp add: uint_mod)
  ultimately show ?thesis
    by (simp add: sint_uint signed_take_bit_int_eq_self)
qed

lemma nat_uint_div8: "nat (uint (I :: unsigned_t) div 8) = unat I div 8"
proof -
  have "uint I = int (unat I)" by simp
  then have "uint I div 8 = int (unat I div 8)" by (simp add: zdiv_int)
  then show ?thesis by simp
qed

lemma filter_replicate_powerDown:
  "filter (\<lambda>e. \<not> is_log e) (replicate k (LowPower_powerDown SLEEP_8S ADC_OFF BOD_OFF))
     = replicate k (LowPower_powerDown SLEEP_8S ADC_OFF BOD_OFF)"
  by (induction k) simp_all

lemma txcomplete_log_is_log: "filter (\<lambda>e. \<not> is_log e) (txcomplete_log H E) = []"
  by (simp add: txcomplete_log_def)

lemma enter_sleep_eq:
  "enter_sleep I H E s =
     (s\<lparr>times_g := I div 8, rest := I mod 8\<rparr>,
      [Serial_print (F ''Sleeping ''),
       Serial_print (Num16 (I div 8)),
       Serial_print (F '' of 8 seconds. Rest: ''),
       Serial_println (Num16 (I mod 8)),
       Serial_flush]
      @ replicate (nat (uint I div 8)) (LowPower_powerDown SLEEP_8S ADC_OFF BOD_OFF)
      @ [Os_setTimedCallback Sendjob (os_getTime E 1 + sec2osticks H (I mod 8)) Do_send])"
  by (simp add: enter_sleep_def Let_def powerDown_loop_replicate sint_div8)

lemma onEvent_txcomplete_20:
  "onEvent H E EV_TXCOMPLETE s =
     (s\<lparr>times_g := 2, rest := 4\<rparr>,
      [Serial_print (Ticks (os_getTime E 0)), Serial_print (F '': '')]
      @ txcomplete_log H E
      @ [Serial_print (F ''Sleeping ''),
         Serial_print (Num16 2),
         Serial_print (F '' of 8 seconds. Rest: ''),
         Serial_println (Num16 4),
         Serial_flush,
         LowPower_powerDown SLEEP_8S ADC_OFF BOD_OFF,
         LowPower_powerDown SLEEP_8S ADC_OFF BOD_OFF,
         Os_setTimedCallback Sendjob (os_getTime E 1 + sec2osticks H 4) Do_send])"
proof -
  have d: "(20 :: unsigned_t) div 8 = 2" by simp
  have m: "(20 :: unsigned_t) mod 8 = 4" by simp
  have n: "nat (uint (20 :: unsigned_t) div 8) = 2" by simp
  have r: "replicate 2 x = [x, x]" for x :: effect by (simp add: numeral_2_eq_2)
  show ?thesis
    unfolding onEvent_def TX_INTERVAL_def onEvent_at_def enter_sleep_eq d m n r
    by simp
qed

text \<open>
  C1. For every interval \<open>I\<close> that the type \<^verbatim>\<open>unsigned\<close> of \<^verbatim>\<open>TX_INTERVAL\<close> holds
  and the chunk of 8 seconds, the Transmit-Complete branch leaves in \<^verbatim>\<open>times\<close> the
  quotient \<open>I div 8\<close> and in \<^verbatim>\<open>rest\<close> the remainder \<open>I mod 8\<close>, and
  \<open>times * 8 + rest = I\<close>.
\<close>

theorem decomposition_div_mod:
  "sint (times_g (fst (onEvent_at I H E EV_TXCOMPLETE s))) = uint I div 8
   \<and> sint (rest (fst (onEvent_at I H E EV_TXCOMPLETE s))) = uint I mod 8
   \<and> sint (times_g (fst (onEvent_at I H E EV_TXCOMPLETE s))) * 8
       + sint (rest (fst (onEvent_at I H E EV_TXCOMPLETE s))) = uint I"
  by (simp add: onEvent_at_def enter_sleep_eq sint_div8 sint_mod8)

text \<open>
  C3, as the code has it. For every interval \<open>I\<close>, the effects of the
  Transmit-Complete branch other than logging are exactly \<open>I div 8\<close> power-downs of
  8 seconds each, followed by the registration of \<^verbatim>\<open>do_send\<close> at the time read
  after the last power-down plus \<open>sec2osticks (I mod 8)\<close>. The remainder is waited
  for by the timed callback; there is no blocking sleep for it. For the sketch's
  interval 20 these are two power-downs and the registration at 4 seconds from then.
\<close>

theorem scheduler_sleeps_then_rearms:
  "filter (\<lambda>e. \<not> is_log e) (snd (onEvent_at I H E EV_TXCOMPLETE s)) =
     replicate (unat I div 8) (LowPower_powerDown SLEEP_8S ADC_OFF BOD_OFF)
     @ [Os_setTimedCallback Sendjob (os_getTime E 1 + sec2osticks H (I mod 8)) Do_send]
   \<and> filter (\<lambda>e. \<not> is_log e) (snd (onEvent H E EV_TXCOMPLETE s)) =
       [LowPower_powerDown SLEEP_8S ADC_OFF BOD_OFF,
        LowPower_powerDown SLEEP_8S ADC_OFF BOD_OFF,
        Os_setTimedCallback Sendjob (os_getTime E 1 + sec2osticks H 4) Do_send]"
proof -
  have "filter (\<lambda>e. \<not> is_log e) (snd (onEvent_at I H E EV_TXCOMPLETE s)) =
     replicate (unat I div 8) (LowPower_powerDown SLEEP_8S ADC_OFF BOD_OFF)
     @ [Os_setTimedCallback Sendjob (os_getTime E 1 + sec2osticks H (I mod 8)) Do_send]"
    by (simp add: onEvent_at_def enter_sleep_eq txcomplete_log_is_log
        filter_replicate_powerDown nat_uint_div8)
  moreover have "filter (\<lambda>e. \<not> is_log e) (snd (onEvent H E EV_TXCOMPLETE s)) =
       [LowPower_powerDown SLEEP_8S ADC_OFF BOD_OFF,
        LowPower_powerDown SLEEP_8S ADC_OFF BOD_OFF,
        Os_setTimedCallback Sendjob (os_getTime E 1 + sec2osticks H 4) Do_send]"
    by (simp add: onEvent_txcomplete_20 txcomplete_log_is_log)
  ultimately show ?thesis by simp
qed

text \<open>
  C3, as the specification states it, fails for the interval 20: the sketch sleeps
  twice for 8 seconds and never for the 4 seconds of the remainder, where the
  specification's scheduler sleeps for 8, 8 and 4 seconds.
\<close>

theorem remainder_sleep_counterexample:
  "slept (snd (onEvent sample_header sample_env EV_TXCOMPLETE idle_sketch)) = [8, 8]
   \<and> slept (snd (onEvent sample_header sample_env EV_TXCOMPLETE idle_sketch))
       \<noteq> spec_sleeps 20 8"
proof -
  have "txcomplete_log sample_header sample_env =
          [Serial_println (F ''EV_TXCOMPLETE (includes waiting for RX windows)'')]"
    by (simp add: txcomplete_log_def sample_env_def)
  then have "slept (snd (onEvent sample_header sample_env EV_TXCOMPLETE idle_sketch)) = [8, 8]"
    by (simp add: onEvent_txcomplete_20)
  moreover have "spec_sleeps 20 8 = [8, 8, 4]"
    by (simp add: spec_sleeps_def numeral_2_eq_2)
  ultimately show ?thesis by simp
qed

section \<open>The battery sampler and the payload bytes\<close>

lemma measuring_completes:
  "\<not> adsc (i + k) \<Longrightarrow> \<exists>j. measuring adsc i = Some j"
proof (induction k arbitrary: i)
  case 0
  then show ?case by (subst measuring.simps) simp
next
  case (Suc k)
  show ?case
  proof (cases "adsc i")
    case True
    from Suc.prems have "\<not> adsc (Suc i + k)" by simp
    then obtain j where "measuring adsc (Suc i) = Some j"
      using Suc.IH by blast
    with True show ?thesis by (subst measuring.simps) simp
  next
    case False
    then show ?thesis by (subst measuring.simps) simp
  qed
qed

lemma recombine: "256 * ((k :: int) div 256 mod 256) + k mod 256 = k mod 65536"
  using zmod_zmult2_eq [of 256 k 256] by simp

lemma sint_sdr: "sint (signed_drop_bit 8 (w :: long_t)) = sint w div 256"
  by (simp add: sint_signed_drop_bit_eq drop_bit_eq_div)

lemma byte_low_sint: "uint (ucast (w :: long_t) :: u1_t) = sint w mod 256"
proof -
  have "uint (ucast w :: u1_t) = take_bit 8 (uint w)"
    by (simp add: unsigned_ucast_eq)
  also have "\<dots> = take_bit 8 (sint w)"
    by (simp add: sint_uint take_bit_signed_take_bit)
  finally show ?thesis by (simp add: take_bit_eq_mod)
qed

lemma ucast_and_255: "(ucast ((w :: long_t) AND 0xFF) :: u1_t) = ucast w"
proof -
  have "w AND 0xFF = take_bit 8 w"
    by (simp add: take_bit_eq_mask mask_eq_exp_minus_1)
  moreover have "(ucast (take_bit 8 w) :: u1_t) = ucast w"
    by (rule bit_word_eqI) (simp add: bit_word_ucast_iff bit_take_bit_iff)
  ultimately show ?thesis by simp
qed

lemma adc_word_zero_iff:
  "push_bit 8 (ucast (h :: u1_t) :: int_t) OR (ucast (l :: u1_t) :: int_t) = 0 \<longleftrightarrow> l = 0 \<and> h = 0"
proof
  assume z: "push_bit 8 (ucast h :: int_t) OR (ucast l :: int_t) = 0"
  have b: "\<not> bit (push_bit 8 (ucast h :: int_t) OR (ucast l :: int_t)) n" for n
    by (simp add: z)
  have "l = 0"
  proof (rule bit_word_eqI)
    fix n assume "n < LENGTH(8)"
    with b [of n] show "bit l n = bit (0 :: u1_t) n"
      by (simp add: bit_or_iff bit_word_ucast_iff bit_push_bit_iff)
  qed
  moreover have "h = 0"
  proof (rule bit_word_eqI)
    fix n assume "n < LENGTH(8)"
    with b [of "n + 8"] show "bit h n = bit (0 :: u1_t) n"
      by (simp add: bit_or_iff bit_word_ucast_iff bit_push_bit_iff)
  qed
  ultimately show "l = 0 \<and> h = 0" by simp
next
  assume "l = 0 \<and> h = 0"
  then show "push_bit 8 (ucast h :: int_t) OR (ucast l :: int_t) = 0" by simp
qed

lemma scast_zero_iff: "(scast (w :: int_t) :: long_t) = 0 \<longleftrightarrow> w = 0"
proof
  assume z: "(scast w :: long_t) = 0"
  have b: "\<not> bit (scast w :: long_t) n" for n by (simp add: z)
  show "w = 0"
  proof (rule bit_word_eqI)
    fix n assume "n < LENGTH(16)"
    with b [of n] show "bit w n = bit (0 :: int_t) n"
      by (simp add: bit_word_scast_iff)
  qed
next
  assume "w = 0" then show "(scast w :: long_t) = 0" by simp
qed

lemma adc_result_zero_iff: "adc_result E = 0 \<longleftrightarrow> ADCL E = 0 \<and> ADCH E = 0"
  by (simp add: adc_result_def Let_def scast_zero_iff adc_word_zero_iff)

lemma sdiv_bound: "\<bar>(1125300 :: int) sdiv r\<bar> \<le> 1125300"
proof -
  have q: "0 \<le> (1125300 :: int) div \<bar>r\<bar>"
    by (simp add: div_int_pos_iff)
  have "\<bar>(1125300 :: int) sdiv r\<bar> = \<bar>sgn r\<bar> * (1125300 div \<bar>r\<bar>)"
    using q by (simp add: signed_divide_int_def abs_mult)
  also have "\<dots> \<le> 1 * (1125300 div \<bar>r\<bar>)"
    using q by (intro mult_right_mono) (auto simp: abs_sgn_eq)
  also have "\<dots> \<le> 1125300"
  proof (cases "r = 0")
    case True
    then show ?thesis by simp
  next
    case False
    then have "1 \<le> \<bar>r\<bar>" by simp
    then have "(1125300 :: int) div \<bar>r\<bar> \<le> 1125300 div 1"
      by (intro zdiv_mono2) simp_all
    then show ?thesis by simp
  qed
  finally show ?thesis .
qed

lemma readVcc_eq:
  assumes "\<not> ADSC_set E n"
  shows "readVcc E =
     (if adc_result E = 0 then Some (Inl Division_by_zero)
      else Some (Inr (word_of_int (1125300 sdiv sint (adc_result E)),
                      [Write_ADMUX, Delay 2, Start_conversion])))"
proof -
  from assms obtain j where "measuring (ADSC_set E) 0 = Some j"
    using measuring_completes [of "ADSC_set E" 0 n] by auto
  then show ?thesis by (simp add: readVcc_def Let_def)
qed

lemma build_payload_eq:
  "build_payload mV p = (p[0 := ucast (signed_drop_bit 8 mV), 1 := ucast mV], 2)"
  by (simp add: build_payload_def Let_def ucast_and_255)

lemma do_send_idle:
  assumes "opmode (LMIC E) AND OP_TXRXPEND H = 0"
    and "readVcc E = Some (Inr (mV, fx))"
  shows "do_send H E s =
     Some (Inr (s\<lparr>payload := fst (build_payload mV (payload s))\<rparr>,
                fx @ [LMIC_setTxData2 1 (fst (build_payload mV (payload s))) 2 0,
                      Serial_println (F ''Packet queued'')]))"
  using assms by (simp add: do_send_def build_payload_eq)

lemma measuring_Some: "measuring adsc k = Some j \<Longrightarrow> \<not> adsc j"
  by (rule measuring.raw_induct [where P = "\<lambda>adsc k j. \<not> adsc j"]) (auto split: if_splits)

lemma readVcc_stalls: "(\<forall>k. ADSC_set E k) \<Longrightarrow> readVcc E = None"
proof -
  assume a: "\<forall>k. ADSC_set E k"
  have "measuring (ADSC_set E) 0 = None"
  proof (cases "measuring (ADSC_set E) 0")
    case None then show ?thesis .
  next
    case (Some j)
    then have "\<not> ADSC_set E j" by (rule measuring_Some)
    with a show ?thesis by simp
  qed
  then show ?thesis by (simp add: readVcc_def)
qed

lemma transmitted_build:
  assumes "length p = 20"
  shows "transmitted (fst (build_payload mV p)) = sint mV mod 65536"
proof -
  have "fst (build_payload mV p) ! 0 = ucast (signed_drop_bit 8 mV)"
    using assms by (simp add: build_payload_eq)
  moreover have "fst (build_payload mV p) ! 1 = ucast mV"
    using assms by (simp add: build_payload_eq)
  ultimately have "transmitted (fst (build_payload mV p))
      = 256 * (sint mV div 256 mod 256) + sint mV mod 256"
    by (simp add: transmitted_def byte_low_sint sint_sdr)
  then show ?thesis by (simp add: recombine)
qed

lemma take2_build:
  assumes "length p = 20"
  shows "take 2 (fst (build_payload mV p)) = [ucast (signed_drop_bit 8 mV), ucast mV]"
proof -
  obtain a b r where p: "p = a # b # r"
    using assms by (cases p; cases "tl p") auto
  show ?thesis by (simp add: build_payload_eq p)
qed

lemma drop2_build: "drop 2 (fst (build_payload mV p)) = drop 2 p"
  by (simp add: build_payload_eq drop_update_cancel)

lemma sint_readVcc_value: "sint (word_of_int (1125300 sdiv r) :: long_t) = 1125300 sdiv r"
proof -
  have "\<bar>(1125300 :: int) sdiv r\<bar> \<le> 1125300" by (rule sdiv_bound)
  then have "- (2 ^ 31) \<le> (1125300 :: int) sdiv r" "(1125300 :: int) sdiv r < 2 ^ 31"
    by simp_all
  then show ?thesis
    by (simp add: sint_word_ariths signed_of_int signed_take_bit_int_eq_self)
qed

lemma adc_word_uint:
  "uint (push_bit 8 (ucast (h :: u1_t) :: int_t) OR (ucast (l :: u1_t) :: int_t))
     = 256 * uint h + uint l"
proof -
  have d: "push_bit 8 (ucast h :: int_t) AND (ucast l :: int_t) = 0"
    by (rule bit_word_eqI) (auto simp: bit_and_iff bit_push_bit_iff bit_word_ucast_iff)
  have hl: "uint h < 256" "uint l < 256"
    using uint_lt2p [of h] uint_lt2p [of l] by simp_all
  have uh: "uint (ucast h :: int_t) = uint h" and ul: "uint (ucast l :: int_t) = uint l"
    using hl by (simp_all add: unsigned_ucast_eq take_bit_int_eq_self)
  have "push_bit 8 (ucast h :: int_t) OR (ucast l :: int_t)
          = (ucast h :: int_t) * 256 + ucast l"
    using disjunctive_add_eq_or [OF d] by (simp add: push_bit_eq_mult)
  then have "uint (push_bit 8 (ucast h :: int_t) OR (ucast l :: int_t))
          = (uint h * 256 + uint l) mod 65536"
    by (simp add: uint_word_ariths uh ul mod_simps)
  moreover have "0 \<le> uint h * 256 + uint l" "uint h * 256 + uint l < 65536"
    using hl by simp_all
  ultimately show ?thesis by simp
qed

lemma signed16_of_uint:
  fixes u :: int
  assumes "0 \<le> u" and "u < 65536"
  shows "signed_take_bit 15 u = (if u < 32768 then u else u - 65536)"
proof -
  have "signed_take_bit 15 u = (u + 32768) mod 65536 - 32768"
    by (simp add: signed_take_bit_eq_take_bit_shift take_bit_eq_mod)
  also have "\<dots> = (if u < 32768 then u else u - 65536)"
  proof (cases "u < 32768")
    case True
    with assms have "(u + 32768) mod 65536 = u + 32768"
      by (intro mod_pos_pos_trivial) simp_all
    with True show ?thesis by simp
  next
    case False
    have "(u + 32768) mod 65536 = (u - 32768 + 65536) mod 65536"
      by (rule arg_cong [where f = "\<lambda>x. x mod 65536"]) linarith
    also have "\<dots> = (u - 32768) mod 65536" by (rule mod_add_self2)
    also have "\<dots> = u - 32768"
      using assms False by (intro mod_pos_pos_trivial) simp_all
    finally show ?thesis using False by simp
  qed
  finally show ?thesis .
qed

lemma sint_adc_result:
  "sint (adc_result E) =
     (if 256 * uint (ADCH E) + uint (ADCL E) < 32768
      then 256 * uint (ADCH E) + uint (ADCL E)
      else 256 * uint (ADCH E) + uint (ADCL E) - 65536)"
proof -
  define w :: int_t where "w = push_bit 8 (ucast (ADCH E) :: int_t) OR ucast (ADCL E)"
  have u: "uint w = 256 * uint (ADCH E) + uint (ADCL E)"
    by (simp add: w_def adc_word_uint)
  have "- (2 ^ 15) \<le> sint w" "sint w < 2 ^ 15"
    using sint_ge [of w] sint_lt [of w] by simp_all
  then have "sint (scast w :: long_t) = sint w"
    by (simp add: signed_scast_eq signed_take_bit_int_eq_self)
  moreover have "sint w = signed_take_bit 15 (uint w)"
    by (simp add: sint_uint)
  moreover have "0 \<le> uint w" "uint w < 65536"
    using uint_lt2p [of w] by simp_all
  ultimately have "sint (scast w :: long_t) = (if uint w < 32768 then uint w else uint w - 65536)"
    by (simp add: signed16_of_uint)
  then show ?thesis
    by (simp add: adc_result_def Let_def u flip: w_def)
qed

lemma adc_result_word_cat:
  "adc_result E = scast (word_cat (ADCH E) (ADCL E) :: int_t)"
  by (simp add: adc_result_def Let_def word_cat_eq_push_bit_or)

lemma readVcc_sample:
  "readVcc sample_env = Some (Inr (3701, [Write_ADMUX, Delay 2, Start_conversion]))"
proof -
  have "\<not> ADSC_set sample_env 3" by (simp add: sample_env_def)
  moreover have "adc_result sample_env = 304" by (simp add: sample_env_def adc_result_def)
  moreover have "(1125300 :: int) sdiv 304 = 3701" by (simp add: signed_divide_int_def)
  ultimately show ?thesis by (simp add: readVcc_eq)
qed

lemma readVcc_one:
  "readVcc one_adc_env = Some (Inr (1125300, [Write_ADMUX, Delay 2, Start_conversion]))"
proof -
  have "\<not> ADSC_set one_adc_env 3" by (simp add: one_adc_env_def sample_env_def)
  moreover have "adc_result one_adc_env = 1"
    by (simp add: one_adc_env_def sample_env_def adc_result_def)
  moreover have "(1125300 :: int) sdiv 1 = 1125300" by (simp add: signed_divide_int_def)
  ultimately show ?thesis by (simp add: readVcc_eq)
qed

section \<open>The uplink submitter\<close>

text \<open>
  C2. A call of \<^verbatim>\<open>do_send\<close> while the flag \<^verbatim>\<open>OP_TXRXPEND\<close> is set in
  \<^verbatim>\<open>LMIC.opmode\<close> returns with every global of the sketch as it was, the payload
  buffer among them; its only effect is the log line: no effect of \<^verbatim>\<open>readVcc\<close>
  and no call of \<^verbatim>\<open>LMIC_setTxData2\<close>.
\<close>

theorem do_send_pending_noop:
  assumes "opmode (LMIC E) AND OP_TXRXPEND H \<noteq> 0"
  shows "\<exists>s' fx. do_send H E s = Some (Inr (s', fx))
           \<and> s' = s \<and> payload s' = payload s
           \<and> fx = [Serial_println (F ''OP_TXRXPEND, not sending'')]
           \<and> filter is_sampler fx = [] \<and> filter is_enqueue fx = []"
  using assms by (simp add: do_send_def)

theorem do_send_pending_noop_witness:
  "opmode (LMIC pending_env) AND OP_TXRXPEND sample_header \<noteq> 0
   \<and> do_send sample_header pending_env idle_sketch
       = Some (Inr (idle_sketch, [Serial_println (F ''OP_TXRXPEND, not sending'')]))"
  using do_send_pending_noop [of pending_env sample_header idle_sketch]
  by (simp add: pending_env_def sample_env_def sample_header_def)

text \<open>
  C5. The two bytes stored at lines 92 and 93 are a function of the millivolt value
  alone, for every value of the \<^verbatim>\<open>long\<close>: \<^verbatim>\<open>payload[0]\<close> is
  \<^verbatim>\<open>(mV >> 8) & 0xFF\<close>, the second lowest byte of the value, and \<^verbatim>\<open>payload[1]\<close>
  is \<^verbatim>\<open>mV & 0xFF\<close>, its lowest byte, whatever the buffer held before. For 3700 mV
  the bytes are \<open>0x0E\<close> and \<open>0x74\<close>. These are the bytes that \<^verbatim>\<open>do_send\<close> leaves
  in the buffer for the value that \<^verbatim>\<open>readVcc\<close> returned.
\<close>

theorem payload_big_endian:
  assumes "length p = 20"
  shows "map uint (take 2 (fst (build_payload mV p)))
           = [sint mV div 256 mod 256, sint mV mod 256]
   \<and> take 2 (fst (build_payload mV p))
           = [ucast (signed_drop_bit 8 mV AND 0xFF), ucast (mV AND 0xFF)]
   \<and> (length q = 20 \<longrightarrow>
          take 2 (fst (build_payload mV q)) = take 2 (fst (build_payload mV p)))
   \<and> take 2 (fst (build_payload 3700 p)) = [0x0E, 0x74]
   \<and> (payload s = p \<and> opmode (LMIC E) AND OP_TXRXPEND H = 0
          \<and> readVcc E = Some (Inr (mV, fx)) \<longrightarrow>
        (\<exists>s' gx. do_send H E s = Some (Inr (s', gx))
           \<and> payload s' = fst (build_payload mV p)
           \<and> map uint (take 2 (payload s')) = [sint mV div 256 mod 256, sint mV mod 256]))"
proof -
  have a: "map uint (take 2 (fst (build_payload mV p)))
             = [sint mV div 256 mod 256, sint mV mod 256]"
    using assms by (simp add: take2_build byte_low_sint sint_sdr)
  have b: "take 2 (fst (build_payload mV p))
             = [ucast (signed_drop_bit 8 mV AND 0xFF), ucast (mV AND 0xFF)]"
    using assms by (simp add: take2_build ucast_and_255)
  have c: "length q = 20 \<longrightarrow>
             take 2 (fst (build_payload mV q)) = take 2 (fst (build_payload mV p))"
    using assms by (simp add: take2_build)
  have d: "take 2 (fst (build_payload 3700 p)) = [0x0E, 0x74]"
    using assms by (simp add: take2_build)
  have e: "payload s = p \<and> opmode (LMIC E) AND OP_TXRXPEND H = 0
             \<and> readVcc E = Some (Inr (mV, fx)) \<longrightarrow>
           (\<exists>s' gx. do_send H E s = Some (Inr (s', gx))
              \<and> payload s' = fst (build_payload mV p)
              \<and> map uint (take 2 (payload s')) = [sint mV div 256 mod 256, sint mV mod 256])"
    using a by (auto simp: do_send_idle)
  from a b c d e show ?thesis by blast
qed

theorem payload_big_endian_witness:
  "length (payload idle_sketch) = 20
   \<and> map uint (take 2 (fst (build_payload 65535 (payload idle_sketch)))) = [255, 255]
   \<and> take 2 (fst (build_payload 3700 (payload idle_sketch))) = [0x0E, 0x74]
   \<and> length (replicate 20 (7 :: u1_t)) = 20
   \<and> take 2 (fst (build_payload 65535 (replicate 20 7)))
       = take 2 (fst (build_payload 65535 (payload idle_sketch)))
   \<and> opmode (LMIC sample_env) AND OP_TXRXPEND sample_header = 0
   \<and> readVcc sample_env = Some (Inr (3701, [Write_ADMUX, Delay 2, Start_conversion]))
   \<and> (\<exists>s' gx. do_send sample_header sample_env idle_sketch = Some (Inr (s', gx))
         \<and> map uint (take 2 (payload s')) = [14, 117])"
proof -
  have l: "length (payload idle_sketch) = 20" by (simp add: idle_sketch_def)
  have i: "opmode (LMIC sample_env) AND OP_TXRXPEND sample_header = 0"
    by (simp add: sample_env_def sample_header_def)
  have m: "sint (65535 :: long_t) div 256 mod 256 = 255" "sint (65535 :: long_t) mod 256 = 255"
    by simp_all
  have n: "sint (3701 :: long_t) div 256 mod 256 = 14" "sint (3701 :: long_t) mod 256 = 117"
    by simp_all
  show ?thesis
    using payload_big_endian [OF l, of 65535 "replicate 20 7" idle_sketch sample_env sample_header
        "[Write_ADMUX, Delay 2, Start_conversion]"]
      payload_big_endian [OF l, of 3701 "replicate 20 7" idle_sketch sample_env sample_header
        "[Write_ADMUX, Delay 2, Start_conversion]"]
      l i m n readVcc_sample
    by auto
qed

text \<open>
  C6. When no transmission is pending and \<^verbatim>\<open>readVcc\<close> returns, \<^verbatim>\<open>do_send\<close>
  hands the length 2 to \<^verbatim>\<open>LMIC_setTxData2\<close>, in its only call of it, and the 18
  bytes of the buffer from index 2 on are as they were.
\<close>

theorem battery_payload_length_two:
  assumes "length (payload s) = 20"
    and "opmode (LMIC E) AND OP_TXRXPEND H = 0"
    and "readVcc E = Some (Inr (mV, fx))"
  shows "\<exists>p'. do_send H E s =
           Some (Inr (s\<lparr>payload := p'\<rparr>,
                      fx @ [LMIC_setTxData2 1 p' 2 0, Serial_println (F ''Packet queued'')]))
           \<and> filter is_enqueue
                (fx @ [LMIC_setTxData2 1 p' 2 0, Serial_println (F ''Packet queued'')])
               = filter is_enqueue fx @ [LMIC_setTxData2 1 p' 2 0]
           \<and> length p' = 20
           \<and> drop 2 p' = drop 2 (payload s)"
  using assms by (simp add: do_send_idle drop2_build build_payload_eq)

theorem battery_payload_length_two_witness:
  "length (payload idle_sketch) = 20
   \<and> opmode (LMIC sample_env) AND OP_TXRXPEND sample_header = 0
   \<and> readVcc sample_env = Some (Inr (3701, [Write_ADMUX, Delay 2, Start_conversion]))
   \<and> (\<exists>p'. do_send sample_header sample_env idle_sketch =
           Some (Inr (idle_sketch\<lparr>payload := p'\<rparr>,
                      [Write_ADMUX, Delay 2, Start_conversion,
                       LMIC_setTxData2 1 p' 2 0, Serial_println (F ''Packet queued'')]))
         \<and> drop 2 p' = replicate 18 0)"
proof -
  have l: "length (payload idle_sketch) = 20" by (simp add: idle_sketch_def)
  have i: "opmode (LMIC sample_env) AND OP_TXRXPEND sample_header = 0"
    by (simp add: sample_env_def sample_header_def)
  have d: "drop 2 (payload idle_sketch) = replicate 18 0" by (simp add: idle_sketch_def)
  show ?thesis
    using battery_payload_length_two [OF l i readVcc_sample] l i readVcc_sample d by auto
qed

section \<open>The event reactor\<close>

text \<open>
  C4. On every Transmit-Complete event, whatever \<^verbatim>\<open>LMIC.txrxFlags\<close> and
  \<^verbatim>\<open>LMIC.dataLen\<close> hold, \<^verbatim>\<open>onEvent\<close> sets \<^verbatim>\<open>times\<close> and \<^verbatim>\<open>rest\<close>, sleeps
  and registers the next \<^verbatim>\<open>do_send\<close>; the two fields change the log lines and
  nothing else.
\<close>

theorem txcomplete_always_reschedules:
  "fst (onEvent H E EV_TXCOMPLETE s) = s\<lparr>times_g := 2, rest := 4\<rparr>
   \<and> filter (\<lambda>e. \<not> is_log e) (snd (onEvent H E EV_TXCOMPLETE s)) =
       [LowPower_powerDown SLEEP_8S ADC_OFF BOD_OFF,
        LowPower_powerDown SLEEP_8S ADC_OFF BOD_OFF,
        Os_setTimedCallback Sendjob (os_getTime E 1 + sec2osticks H 4) Do_send]
   \<and> fst (onEvent H (E\<lparr>LMIC := L\<rparr>) EV_TXCOMPLETE s) = fst (onEvent H E EV_TXCOMPLETE s)
   \<and> filter (\<lambda>e. \<not> is_log e) (snd (onEvent H (E\<lparr>LMIC := L\<rparr>) EV_TXCOMPLETE s))
       = filter (\<lambda>e. \<not> is_log e) (snd (onEvent H E EV_TXCOMPLETE s))"
  by (simp add: onEvent_txcomplete_20 txcomplete_log_is_log)

text \<open>
  C7. On the Joined event \<^verbatim>\<open>onEvent\<close> calls \<^verbatim>\<open>LMIC_setLinkCheckMode(0)\<close> once,
  neither sleeps nor registers a timed callback, and leaves the globals as they were.
\<close>

theorem joined_disables_link_check:
  "onEvent H E EV_JOINED s =
     (s, [Serial_print (Ticks (os_getTime E 0)), Serial_print (F '': ''),
          Serial_println (F ''EV_JOINED''), LMIC_setLinkCheckMode 0])
   \<and> filter is_link_check (snd (onEvent H E EV_JOINED s)) = [LMIC_setLinkCheckMode 0]
   \<and> filter is_sleep (snd (onEvent H E EV_JOINED s)) = []
   \<and> filter is_schedule (snd (onEvent H E EV_JOINED s)) = []"
  by (simp add: onEvent_def onEvent_at_def)

text \<open>
  C8. For every event other than Transmit-Complete and Joined, among them every tag
  that the sketch does not name, \<^verbatim>\<open>onEvent\<close> leaves the globals as they were and
  all its effects are log output; two calls in a row with an unknown tag leave the
  globals as they were and produce log output only.
\<close>

theorem other_events_only_log:
  assumes "ev \<noteq> EV_TXCOMPLETE" and "ev \<noteq> EV_JOINED"
  shows "fst (onEvent H E ev s) = s
   \<and> list_all is_log (snd (onEvent H E ev s))
   \<and> fst (onEvent H E' (EV_other k) (fst (onEvent H E (EV_other k) s))) = s
   \<and> list_all is_log (snd (onEvent H E (EV_other k) s)
        @ snd (onEvent H E' (EV_other k) (fst (onEvent H E (EV_other k) s))))"
  using assms by (cases ev) (simp_all add: onEvent_def onEvent_at_def)

theorem other_events_only_log_witness:
  "EV_JOIN_FAILED \<noteq> EV_TXCOMPLETE \<and> EV_JOIN_FAILED \<noteq> EV_JOINED
   \<and> fst (onEvent sample_header sample_env EV_JOIN_FAILED idle_sketch) = idle_sketch
   \<and> list_all is_log (snd (onEvent sample_header sample_env EV_JOIN_FAILED idle_sketch))
   \<and> fst (onEvent sample_header pending_env (EV_other 99)
            (fst (onEvent sample_header sample_env (EV_other 99) idle_sketch))) = idle_sketch"
  using other_events_only_log [of EV_JOIN_FAILED sample_header sample_env idle_sketch pending_env 99]
  by simp

section \<open>The battery sampler\<close>

text \<open>
  C9. Once the conversion has ended, \<^verbatim>\<open>readVcc\<close> divides 1125300 by the value read
  from the ADC registers with no test before the division. That value is the 16-bit
  word with \<^verbatim>\<open>ADCH\<close> as its high byte and \<^verbatim>\<open>ADCL\<close> as its low byte, read as a
  signed \<^verbatim>\<open>int\<close>: \<open>256 * ADCH + ADCL\<close>, less 65536 from 32768 on. \<^verbatim>\<open>readVcc\<close>
  returns the quotient, truncated towards zero, when that value is not 0, and
  divides by zero when it is 0, which is when both registers read 0. So
  \<^verbatim>\<open>readVcc\<close> returns a value exactly when the value read is not 0.
\<close>

theorem readVcc_divides_unguarded:
  assumes "\<not> ADSC_set E n"
  shows "readVcc E =
           (if adc_result E = 0 then Some (Inl Division_by_zero)
            else Some (Inr (word_of_int (1125300 sdiv sint (adc_result E)),
                            [Write_ADMUX, Delay 2, Start_conversion])))
         \<and> (adc_result E = 0 \<longleftrightarrow> ADCL E = 0 \<and> ADCH E = 0)
         \<and> ((\<exists>v fx. readVcc E = Some (Inr (v, fx))) \<longleftrightarrow> adc_result E \<noteq> 0)
         \<and> adc_result E = scast (word_cat (ADCH E) (ADCL E) :: int_t)
         \<and> sint (adc_result E) =
             (if 256 * uint (ADCH E) + uint (ADCL E) < 32768
              then 256 * uint (ADCH E) + uint (ADCL E)
              else 256 * uint (ADCH E) + uint (ADCL E) - 65536)
         \<and> readVcc E =
             (if ADCL E = 0 \<and> ADCH E = 0 then Some (Inl Division_by_zero)
              else Some (Inr (word_of_int (1125300 sdiv
                                (if 256 * uint (ADCH E) + uint (ADCL E) < 32768
                                 then 256 * uint (ADCH E) + uint (ADCL E)
                                 else 256 * uint (ADCH E) + uint (ADCL E) - 65536)),
                              [Write_ADMUX, Delay 2, Start_conversion])))
         \<and> (\<forall>v fx. readVcc E = Some (Inr (v, fx)) \<longrightarrow>
               sint v = 1125300 sdiv
                          (if 256 * uint (ADCH E) + uint (ADCL E) < 32768
                           then 256 * uint (ADCH E) + uint (ADCL E)
                           else 256 * uint (ADCH E) + uint (ADCL E) - 65536))"
proof -
  let ?r = "if 256 * uint (ADCH E) + uint (ADCL E) < 32768
            then 256 * uint (ADCH E) + uint (ADCL E)
            else 256 * uint (ADCH E) + uint (ADCL E) - 65536"
  have eq: "readVcc E =
           (if adc_result E = 0 then Some (Inl Division_by_zero)
            else Some (Inr (word_of_int (1125300 sdiv sint (adc_result E)),
                            [Write_ADMUX, Delay 2, Start_conversion])))"
    using assms by (rule readVcc_eq)
  have z: "adc_result E = 0 \<longleftrightarrow> ADCL E = 0 \<and> ADCH E = 0"
    by (rule adc_result_zero_iff)
  have ex: "(\<exists>v fx. readVcc E = Some (Inr (v, fx))) \<longleftrightarrow> adc_result E \<noteq> 0"
    by (simp add: eq)
  have cat: "adc_result E = scast (word_cat (ADCH E) (ADCL E) :: int_t)"
    by (rule adc_result_word_cat)
  have si: "sint (adc_result E) = ?r"
    by (rule sint_adc_result)
  have reg: "readVcc E =
             (if ADCL E = 0 \<and> ADCH E = 0 then Some (Inl Division_by_zero)
              else Some (Inr (word_of_int (1125300 sdiv ?r),
                              [Write_ADMUX, Delay 2, Start_conversion])))"
    unfolding eq z si ..
  have val: "\<forall>v fx. readVcc E = Some (Inr (v, fx)) \<longrightarrow> sint v = 1125300 sdiv ?r"
    unfolding reg by (simp add: sint_readVcc_value)
  from eq z ex cat si reg val show ?thesis by blast
qed

theorem readVcc_divides_unguarded_witness:
  "\<not> ADSC_set zero_adc_env 3 \<and> adc_result zero_adc_env = 0
   \<and> readVcc zero_adc_env = Some (Inl Division_by_zero)
   \<and> \<not> ADSC_set sample_env 3 \<and> adc_result sample_env \<noteq> 0
   \<and> readVcc sample_env = Some (Inr (3701, [Write_ADMUX, Delay 2, Start_conversion]))
   \<and> \<not> ADSC_set full_scale_env 3
   \<and> readVcc full_scale_env = Some (Inr (1100, [Write_ADMUX, Delay 2, Start_conversion]))
   \<and> \<not> ADSC_set all_ones_env 3
   \<and> readVcc all_ones_env
       = Some (Inr (word_of_int (- 1125300), [Write_ADMUX, Delay 2, Start_conversion]))"
proof -
  have z: "\<not> ADSC_set zero_adc_env 3" by (simp add: zero_adc_env_def sample_env_def)
  have s: "\<not> ADSC_set sample_env 3" by (simp add: sample_env_def)
  have f: "\<not> ADSC_set full_scale_env 3" by (simp add: full_scale_env_def sample_env_def)
  have a: "\<not> ADSC_set all_ones_env 3" by (simp add: all_ones_env_def sample_env_def)
  have rz: "ADCL zero_adc_env = 0" "ADCH zero_adc_env = 0"
    by (simp_all add: zero_adc_env_def sample_env_def)
  have rs: "ADCL sample_env = 0x30" "ADCH sample_env = 1"
    by (simp_all add: sample_env_def)
  have rf: "ADCL full_scale_env = 0xFF" "ADCH full_scale_env = 3"
    by (simp_all add: full_scale_env_def sample_env_def)
  have ra: "ADCL all_ones_env = 0xFF" "ADCH all_ones_env = 0xFF"
    by (simp_all add: all_ones_env_def sample_env_def)
  have q: "(1125300 :: int) sdiv 304 = 3701" "(1125300 :: int) sdiv 1023 = 1100"
    "(1125300 :: int) sdiv (- 1) = - 1125300"
    by (simp_all add: signed_divide_int_def)
  have rzs: "adc_result zero_adc_env = 0"
    using readVcc_divides_unguarded [OF z, THEN conjunct2, THEN conjunct1] rz by simp
  have rss: "adc_result sample_env \<noteq> 0"
    using readVcc_divides_unguarded [OF s, THEN conjunct2, THEN conjunct1] rs by simp
  have vz: "readVcc zero_adc_env = Some (Inl Division_by_zero)"
    using readVcc_divides_unguarded [OF z, THEN conjunct2, THEN conjunct2, THEN conjunct2, THEN conjunct2, THEN conjunct2, THEN conjunct1]
      rz by simp
  have vs: "readVcc sample_env = Some (Inr (3701, [Write_ADMUX, Delay 2, Start_conversion]))"
    using readVcc_divides_unguarded [OF s, THEN conjunct2, THEN conjunct2, THEN conjunct2, THEN conjunct2, THEN conjunct2, THEN conjunct1]
      rs q by simp
  have vf: "readVcc full_scale_env = Some (Inr (1100, [Write_ADMUX, Delay 2, Start_conversion]))"
    using readVcc_divides_unguarded [OF f, THEN conjunct2, THEN conjunct2, THEN conjunct2, THEN conjunct2, THEN conjunct2, THEN conjunct1]
      rf q by simp
  have va: "readVcc all_ones_env
      = Some (Inr (word_of_int (- 1125300), [Write_ADMUX, Delay 2, Start_conversion]))"
    using readVcc_divides_unguarded [OF a, THEN conjunct2, THEN conjunct2, THEN conjunct2, THEN conjunct2, THEN conjunct2, THEN conjunct1]
      ra q by simp
  from z s f a rzs rss vz vs vf va show ?thesis by blast
qed

text \<open>
  C10. The two payload bytes hold the millivolt value modulo \<open>2 ^ 16\<close>: the value
  read back from them is the reading itself only for a reading from 0 to 65535, and
  differs from every reading of 65536 or more. \<^verbatim>\<open>readVcc\<close> returns at most 1125300
  and does return 1125300 (when the ADC reads 1), which is sent as 11188.
\<close>

theorem payload_keeps_low_16_bits:
  assumes "length p = 20"
  shows "transmitted (fst (build_payload mV p)) = sint mV mod 65536
   \<and> (65536 \<le> sint mV \<longrightarrow> transmitted (fst (build_payload mV p)) \<noteq> sint mV)
   \<and> (transmitted (fst (build_payload mV p)) = sint mV \<longleftrightarrow> 0 \<le> sint mV \<and> sint mV < 65536)
   \<and> readVcc one_adc_env = Some (Inr (1125300, [Write_ADMUX, Delay 2, Start_conversion]))
   \<and> transmitted (fst (build_payload 1125300 p)) = 11188
   \<and> (readVcc E = Some (Inr (v, fx)) \<longrightarrow> sint v \<le> 1125300)"
proof -
  have t: "transmitted (fst (build_payload w p)) = sint w mod 65536" for w
    using assms by (rule transmitted_build)
  have a: "65536 \<le> sint mV \<longrightarrow> sint mV mod 65536 \<noteq> sint mV"
  proof
    assume "65536 \<le> sint mV"
    moreover have "sint mV mod 65536 < 65536" by simp
    ultimately show "sint mV mod 65536 \<noteq> sint mV" by linarith
  qed
  have b: "sint mV mod 65536 = sint mV \<longleftrightarrow> 0 \<le> sint mV \<and> sint mV < 65536"
  proof
    assume e: "sint mV mod 65536 = sint mV"
    have "0 \<le> sint mV mod 65536" "sint mV mod 65536 < 65536" by simp_all
    with e show "0 \<le> sint mV \<and> sint mV < 65536" by simp
  next
    assume "0 \<le> sint mV \<and> sint mV < 65536"
    then show "sint mV mod 65536 = sint mV" by simp
  qed
  have c: "transmitted (fst (build_payload 1125300 p)) = 11188"
    by (simp add: t)
  have d: "readVcc E = Some (Inr (v, fx)) \<longrightarrow> sint v \<le> 1125300"
  proof
    assume r: "readVcc E = Some (Inr (v, fx))"
    then obtain j where "measuring (ADSC_set E) 0 = Some j"
      by (cases "measuring (ADSC_set E) 0") (simp_all add: readVcc_def)
    with r have "v = word_of_int (1125300 sdiv sint (adc_result E))"
      by (simp add: readVcc_def Let_def split: if_splits)
    then have "sint v = 1125300 sdiv sint (adc_result E)"
      by (simp add: sint_readVcc_value)
    moreover have "\<bar>(1125300 :: int) sdiv sint (adc_result E)\<bar> \<le> 1125300"
      by (rule sdiv_bound)
    ultimately show "sint v \<le> 1125300" by simp
  qed
  show ?thesis using t [of mV] a b c d readVcc_one by simp
qed

theorem payload_keeps_low_16_bits_witness:
  "length (replicate 20 (0 :: u1_t)) = 20
   \<and> 65536 \<le> sint (1125300 :: long_t)
   \<and> readVcc one_adc_env = Some (Inr (1125300, [Write_ADMUX, Delay 2, Start_conversion]))
   \<and> sint (1125300 :: long_t) \<le> 1125300
   \<and> transmitted (fst (build_payload 1125300 (replicate 20 0))) = 11188
   \<and> transmitted (fst (build_payload 1125300 (replicate 20 0))) \<noteq> sint (1125300 :: long_t)"
proof -
  have l: "length (replicate 20 (0 :: u1_t)) = 20" by simp
  show ?thesis
    using payload_keeps_low_16_bits [OF l, of 1125300 one_adc_env 1125300
        "[Write_ADMUX, Delay 2, Start_conversion]"]
    by simp
qed

end
